theory Spec2Isabelle
  imports Complex_Main
begin

section \<open>Numbers of the host language\<close>

text \<open>
  The component of \<^verbatim>\<open>src/src/App.tsx\<close> computes page numbers with
  \<^verbatim>\<open>Math.floor(first / rows) + 1\<close> and \<^verbatim>\<open>Math.ceil(totalRecords / rows)\<close>.
  Offsets, page sizes, totals and record ids are whole numbers here (\<open>int\<close>); a quotient by
  zero is not: the host language yields an infinity or NaN, and every comparison with NaN is
  false. The quotients are therefore values of \<open>jsnum\<close>. Loss of precision beyond
  \<open>2 ^ 53\<close> is not modelled.
\<close>

datatype jsnum = NaN | NegInf | Fin int | PosInf

definition js_quot_by_zero :: "int \<Rightarrow> jsnum" where
  "js_quot_by_zero a = (if a = 0 then NaN else if 0 < a then PosInf else NegInf)"

definition js_floor_div :: "int \<Rightarrow> int \<Rightarrow> jsnum" where
  \<comment> \<open>\<^verbatim>\<open>Math.floor(a / b)\<close>\<close>
  "js_floor_div a b = (if b = 0 then js_quot_by_zero a else Fin (a div b))"

definition js_ceil_div :: "int \<Rightarrow> int \<Rightarrow> jsnum" where
  \<comment> \<open>\<^verbatim>\<open>Math.ceil(a / b)\<close>\<close>
  "js_ceil_div a b = (if b = 0 then js_quot_by_zero a else Fin (- ((- a) div b)))"

fun js_plus1 :: "jsnum \<Rightarrow> jsnum" where
  "js_plus1 (Fin n) = Fin (n + 1)"
| "js_plus1 x = x"

fun js_le :: "jsnum \<Rightarrow> jsnum \<Rightarrow> bool" where
  "js_le NaN _ = False"
| "js_le _ NaN = False"
| "js_le NegInf _ = True"
| "js_le _ PosInf = True"
| "js_le (Fin a) (Fin b) = (a \<le> b)"
| "js_le _ _ = False"

fun js_lt :: "jsnum \<Rightarrow> jsnum \<Rightarrow> bool" where
  "js_lt NaN _ = False"
| "js_lt _ NaN = False"
| "js_lt PosInf _ = False"
| "js_lt _ NegInf = False"
| "js_lt (Fin a) (Fin b) = (a < b)"
| "js_lt _ _ = True"

section \<open>Data model\<close>

text \<open>The interfaces \<^verbatim>\<open>Artwork\<close> and \<^verbatim>\<open>ApiResponse\<close> (lines 8 to 22). The field
  \<^verbatim>\<open>id\<close> is \<open>id_num\<close> here. The code reads \<^verbatim>\<open>json.data\<close> and
  \<^verbatim>\<open>json.pagination?.total\<close> defensively, so each of them may be absent.\<close>

record Artwork =
  id_num :: int
  title :: string
  artist_title :: "string option"

record Pagination =
  total :: "int option"
  current_page :: "int option"
  total_pages :: "int option"
  limit :: "int option"

record ApiResponse =
  json_data :: "Artwork list option"
  json_pagination :: "Pagination option"

text \<open>What the two \<^verbatim>\<open>await\<close>s of \<^verbatim>\<open>fetchData\<close> produce: an exception (transport
  error, a body that does not decode, or a decoded value without properties), which the
  \<^verbatim>\<open>catch\<close> of line 52 takes, or a decoded response.\<close>

datatype FetchOutcome = Threw | Decoded ApiResponse

text \<open>The state variables of the component (lines 25 to 30, 89 and 90).\<close>

record App =
  data :: "Artwork list"
  totalRecords :: int
  first :: int
  rows :: int
  selected :: "int set"
  selectCount :: int
  remainingToSelect :: int
  isSelecting :: bool

text \<open>The event of the paginator widget: only \<^verbatim>\<open>e.first\<close> and \<^verbatim>\<open>e.rows\<close> are read.\<close>

record PaginatorPageChangeEvent =
  ev_first :: int
  ev_rows :: int

section \<open>Pagination\<close>

definition toPage :: "int \<Rightarrow> int \<Rightarrow> jsnum" where
  \<comment> \<open>\<^verbatim>\<open>Math.floor(first / rows) + 1\<close>, lines 58, 127, 143 and 150\<close>
  "toPage f r = js_plus1 (js_floor_div f r)"

definition currentPage :: "App \<Rightarrow> jsnum" where
  "currentPage st = toPage (first st) (rows st)"

definition totalPages :: "App \<Rightarrow> jsnum" where
  \<comment> \<open>\<^verbatim>\<open>Math.ceil(totalRecords / rows)\<close>, lines 128 and 146\<close>
  "totalPages st = js_ceil_div (totalRecords st) (rows st)"

definition pageInRange :: "jsnum \<Rightarrow> App \<Rightarrow> bool" where
  \<comment> \<open>\<^verbatim>\<open>newPage >= 1 && newPage <= totalPages\<close>, line 151\<close>
  "pageInRange p st = (js_le (Fin 1) p \<and> js_le p (totalPages st))"

definition handlePageChange :: "PaginatorPageChangeEvent \<Rightarrow> App \<Rightarrow> App" where
  "handlePageChange e st =
     (if pageInRange (toPage (ev_first e) (ev_rows e)) st
      then st\<lparr>first := ev_first e, rows := ev_rows e\<rparr>
      else st)"


section \<open>Fetching a page\<close>

definition reportedTotal :: "ApiResponse \<Rightarrow> int option" where
  \<comment> \<open>\<^verbatim>\<open>json.pagination?.total\<close>: undefined without the object or without the field\<close>
  "reportedTotal json = (case json_pagination json of None \<Rightarrow> None | Some p \<Rightarrow> total p)"

definition totalOrDefault :: "ApiResponse \<Rightarrow> int" where
  \<comment> \<open>\<^verbatim>\<open>json.pagination?.total || 100\<close>: undefined and zero are both falsy\<close>
  "totalOrDefault json =
     (case reportedTotal json of None \<Rightarrow> 100 | Some t \<Rightarrow> if t = 0 then 100 else t)"

definition dataOrEmpty :: "ApiResponse \<Rightarrow> Artwork list" where
  \<comment> \<open>\<^verbatim>\<open>json.data || []\<close>: an array, also an empty one, is truthy\<close>
  "dataOrEmpty json = (case json_data json of None \<Rightarrow> [] | Some d \<Rightarrow> d)"

definition fetchData :: "FetchOutcome \<Rightarrow> App \<Rightarrow> App" where
  \<comment> \<open>the part of \<^verbatim>\<open>fetchData\<close> after its \<^verbatim>\<open>await\<close>s, lines 50 to 54\<close>
  "fetchData r st =
     (case r of
        Threw \<Rightarrow> st
      | Decoded json \<Rightarrow> st\<lparr>data := dataOrEmpty json, totalRecords := totalOrDefault json\<rparr>)"

text \<open>
  The effect of lines 57 to 60 calls \<^verbatim>\<open>fetchData(currentPage)\<close> after the first render and
  after every render in which \<^verbatim>\<open>first\<close> or \<^verbatim>\<open>rows\<close> changed. The request carries the
  page and the \<^verbatim>\<open>rows\<close> of that render; its response comes back later, and responses of
  several outstanding requests come back in any order. The source numbers nothing: \<open>seq\<close>
  and \<open>issued\<close> below only record the order of issue, so that "the most recently issued
  request" can be named at all.
\<close>

record Request =
  seq :: nat
  req_page :: jsnum
  req_limit :: int

record World =
  app :: App
  issued :: nat
  pending :: "Request list"

definition issueFetch :: "World \<Rightarrow> World" where
  "issueFetch w =
     w\<lparr>issued := issued w + 1,
       pending := pending w @
         [\<lparr>seq = issued w + 1, req_page = currentPage (app w), req_limit = rows (app w)\<rparr>]\<rparr>"

definition applyUpdates :: "(App \<Rightarrow> App) \<Rightarrow> World \<Rightarrow> World" where
  \<comment> \<open>the updates \<open>h\<close> of a handler or of a callback are stored and the component renders;
     the effect of line 57 then runs under its dependency list \<^verbatim>\<open>[first, rows]\<close>\<close>
  "applyUpdates h w =
     (if first (h (app w)) = first (app w) \<and> rows (h (app w)) = rows (app w)
      then w\<lparr>app := h (app w)\<rparr>
      else issueFetch (w\<lparr>app := h (app w)\<rparr>))"

definition responseArrives :: "Request \<Rightarrow> FetchOutcome \<Rightarrow> World \<Rightarrow> World" where
  \<comment> \<open>the continuation of \<^verbatim>\<open>fetchData\<close> consults neither the request nor the state\<close>
  "responseArrives q r w = w\<lparr>app := fetchData r (app w), pending := removeAll q (pending w)\<rparr>"

section \<open>The selection set\<close>

definition toggleSelect :: "int \<Rightarrow> App \<Rightarrow> App" where
  "toggleSelect i st =
     st\<lparr>selected := (if i \<in> selected st then selected st - {i} else insert i (selected st))\<rparr>"

definition allSelected :: "App \<Rightarrow> bool" where
  \<comment> \<open>\<^verbatim>\<open>data.length > 0 && data.every((item) => selected.has(item.id))\<close>, line 75\<close>
  "allSelected st = (data st \<noteq> [] \<and> list_all (\<lambda>item. id_num item \<in> selected st) (data st))"

definition toggleSelectAll :: "App \<Rightarrow> App" where
  "toggleSelectAll st =
     (if allSelected st
      then st\<lparr>selected := fold (\<lambda>item newSet. newSet - {id_num item}) (data st) (selected st)\<rparr>
      else st\<lparr>selected := fold (\<lambda>item newSet. insert (id_num item) newSet) (data st) (selected st)\<rparr>)"

definition pageIds :: "App \<Rightarrow> int set" where
  \<comment> \<open>the ids of the records on display\<close>
  "pageIds st = id_num ` set (data st)"

definition clearSelection :: "App \<Rightarrow> App" where
  "clearSelection st = st\<lparr>selected := {}\<rparr>"

section \<open>Selecting N rows across pages\<close>

definition handleSelectN :: "App \<Rightarrow> App" where
  "handleSelectN st =
     (if selectCount st \<le> 0 then st
      else st\<lparr>remainingToSelect := selectCount st, isSelecting := True, selectCount := 0\<rparr>)"

text \<open>The loop of lines 113 to 119: \<open>newSet\<close> and \<open>selectedInThisPage\<close> are its two
  variables, \<open>r\<close> is \<^verbatim>\<open>remainingToSelect\<close>.\<close>

fun selectFromPage :: "int \<Rightarrow> Artwork list \<Rightarrow> int set \<Rightarrow> int \<Rightarrow> int set \<times> int" where
  "selectFromPage r [] newSet selectedInThisPage = (newSet, selectedInThisPage)"
| "selectFromPage r (item # items) newSet selectedInThisPage =
     (if r \<le> selectedInThisPage then (newSet, selectedInThisPage)
      else if id_num item \<in> newSet then selectFromPage r items newSet selectedInThisPage
      else selectFromPage r items (insert (id_num item) newSet) (selectedInThisPage + 1))"

definition accumulating :: "App \<Rightarrow> bool" where
  \<comment> \<open>the guard of line 107, negated\<close>
  "accumulating st = (isSelecting st \<and> 0 < remainingToSelect st)"

definition selectAcrossPages :: "App \<Rightarrow> App" where
  \<comment> \<open>one run of the callback of the effect of lines 106 to 140\<close>
  "selectAcrossPages st =
     (if accumulating st then
        (case selectFromPage (remainingToSelect st) (data st) (selected st) 0 of
           (newSet, selectedInThisPage) \<Rightarrow>
             let st' = st\<lparr>selected := newSet,
                          remainingToSelect := remainingToSelect st - selectedInThisPage\<rparr>
             in if selectedInThisPage < remainingToSelect st \<and> data st \<noteq> []
                then (if js_lt (currentPage st) (totalPages st)
                      then st'\<lparr>first := first st + rows st\<rparr>
                      else st'\<lparr>isSelecting := False\<rparr>)
                else if remainingToSelect st \<le> selectedInThisPage
                then st'\<lparr>isSelecting := False\<rparr>
                else st')
      else st)"

text \<open>
  The hook itself. Its dependency list (line 140) holds \<^verbatim>\<open>selected\<close>, and a run of the
  callback that passes the guard stores a newly built \<^verbatim>\<open>Set\<close> (lines 109 and 121), which
  is never the object of the previous render. So after such a run the component renders again
  and the callback runs again, on the \<^verbatim>\<open>data\<close> of that render; a run that the guard
  stops stores nothing, and the component rests. When the run moved \<^verbatim>\<open>first\<close>, the effect
  of line 57 issues the request for the next page in that same round of effects, just before
  the callback runs again, so no response to it can have come back by then. With no records
  on display and a selection in progress the rounds never end: that is the value \<open>None\<close>.
\<close>

partial_function (option) crossPageEffect :: "App \<Rightarrow> App option" where
  "crossPageEffect st =
     (if accumulating st then crossPageEffect (selectAcrossPages st) else Some st)"

declare crossPageEffect.simps [code]

text \<open>A decoded response is stored by lines 50 and 51, taken to reach the component in one
  render, as the library batches them; \<^verbatim>\<open>data\<close> is then a new array and the hook reacts.\<close>

definition pageArrives :: "ApiResponse \<Rightarrow> App \<Rightarrow> App option" where
  "pageArrives json st = crossPageEffect (fetchData (Decoded json) st)"

text \<open>The accumulator of the specification, read off the two state variables.\<close>

datatype AccumulatorState = Idle | Accumulating int

definition accumulator :: "App \<Rightarrow> AccumulatorState" where
  "accumulator st = (if accumulating st then Accumulating (remainingToSelect st) else Idle)"

section \<open>The specification's own formulas\<close>

text \<open>Written after sections 3 and 4.2 of the specification, over the reals, to be compared
  with \<open>toPage\<close> and \<open>totalPages\<close> above.\<close>

definition spec_toPage :: "int \<Rightarrow> int \<Rightarrow> int" where
  "spec_toPage offset pageSize = \<lfloor>real_of_int offset / real_of_int pageSize\<rfloor> + 1"

definition spec_totalPages :: "int \<Rightarrow> int \<Rightarrow> int" where
  "spec_totalPages totalRecs pageSize = \<lceil>real_of_int totalRecs / real_of_int pageSize\<rceil>"

section \<open>Concrete pages and states\<close>

definition artwork :: "int \<Rightarrow> Artwork" where
  "artwork i = \<lparr>id_num = i, title = ''Untitled'', artist_title = None\<rparr>"

definition response :: "int list \<Rightarrow> int \<Rightarrow> ApiResponse" where
  "response ids t =
     \<lparr>json_data = Some (map artwork ids),
      json_pagination = Some \<lparr>total = Some t, current_page = None, total_pages = None, limit = None\<rparr>\<rparr>"

definition initial :: App where
  \<comment> \<open>the arguments of the \<^verbatim>\<open>useState\<close> calls\<close>
  "initial = \<lparr>data = [], totalRecords = 0, first = 0, rows = 10, selected = {},
      selectCount = 0, remainingToSelect = 0, isSelecting = False\<rparr>"

definition shown :: App where
  \<comment> \<open>the first page of a collection of twenty records is on display, ten rows a page\<close>
  "shown = fetchData (Decoded (response [1..10] 20)) initial"

text \<open>The component is mounted and its first request goes out; then the page size is set to
  twenty while that request is still outstanding, and a second request goes out.\<close>

definition mounted :: World where
  "mounted = issueFetch \<lparr>app = initial, issued = 0, pending = []\<rparr>"


definition firstRequest :: Request where
  "firstRequest = \<lparr>seq = 1, req_page = Fin 1, req_limit = 10\<rparr>"


text \<open>A collection without records reports a total of zero, which is stored as 100; the user
  moves to page ten of ten and asks for five rows.\<close>

definition emptyLastPage :: App where
  "emptyLastPage =
     handleSelectN
       ((handlePageChange \<lparr>ev_first = 90, ev_rows = 10\<rparr>
           (fetchData (Decoded (response [] 0)) initial))\<lparr>selectCount := 5\<rparr>)"

text \<open>The first page of twenty records has arrived, nothing else is outstanding, and the user
  has typed fifteen and pressed Apply.\<close>

definition fifteenWanted :: World where
  "fifteenWanted =
     applyUpdates handleSelectN
       (applyUpdates (\<lambda>st. st\<lparr>selectCount := 15\<rparr>)
          (responseArrives firstRequest (Decoded (response [1..10] 20)) mounted))"

section \<open>Page arithmetic against the specification's formulas\<close>

text \<open>For a page size other than zero the quotients of the code are the floor and the ceiling
  of the specification.\<close>

lemma js_ceil_div_spec: "b \<noteq> 0 \<Longrightarrow> js_ceil_div a b = Fin (spec_totalPages a b)"
  by (simp add: js_ceil_div_def spec_totalPages_def ceiling_divide_eq_div)

lemma toPage_spec: "b \<noteq> 0 \<Longrightarrow> toPage a b = Fin (spec_toPage a b)"
  by (simp add: toPage_def js_floor_div_def spec_toPage_def floor_divide_of_int_eq)


lemma js_lt_irrefl [simp]: "\<not> js_lt x x"
  by (cases x) simp_all

section \<open>The loop over the records of a page\<close>


lemma selectFromPage_nothing_new:
  "id_num ` set xs \<subseteq> S \<Longrightarrow> selectFromPage r xs S k = (S, k)"
  by (induction xs) auto



lemma selectFromPage_exhausts:
  "snd (selectFromPage r xs S k) < r \<Longrightarrow> fst (selectFromPage r xs S k) = S \<union> id_num ` set xs"
  by (induction xs arbitrary: S k) (auto split: if_splits)


text \<open>With distinct ids on the page, the loop adds the first ids, in the order of the page,
  that the selection does not hold yet, as many as are still wanted.\<close>

lemma selectFromPage_in_order:
  "distinct (map id_num xs) \<Longrightarrow> k \<le> r \<Longrightarrow>
   selectFromPage r xs S k =
     (S \<union> set (take (nat (r - k)) (filter (\<lambda>i. i \<notin> S) (map id_num xs))),
      k + int (length (take (nat (r - k)) (filter (\<lambda>i. i \<notin> S) (map id_num xs)))))"
proof (induction xs arbitrary: S k)
  case Nil
  then show ?case by simp
next
  case (Cons x xs)
  show ?case
  proof (cases "r \<le> k")
    case True
    then show ?thesis by simp
  next
    case False
    then have lt: "k < r" by simp
    show ?thesis
    proof (cases "id_num x \<in> S")
      case True
      with Cons lt show ?thesis by simp
    next
      case fresh: False
      define rest where "rest = filter (\<lambda>i. i \<notin> S) (map id_num xs)"
      have same: "filter (\<lambda>i. i \<notin> insert (id_num x) S) (map id_num xs) = rest"
        unfolding rest_def using Cons.prems(1) by (intro filter_cong) (auto, metis imageI)
      have front: "filter (\<lambda>i. i \<notin> S) (map id_num (x # xs)) = id_num x # rest"
        using fresh by (simp add: rest_def)
      have nk: "nat (r - k) = Suc (nat (r - (k + 1)))" using lt by simp
      have "distinct (map id_num xs)" and "k + 1 \<le> r"
        using Cons.prems(1) lt by simp_all
      from Cons.IH [OF this, of "insert (id_num x) S"]
      have "selectFromPage r xs (insert (id_num x) S) (k + 1) =
          (insert (id_num x) S \<union> set (take (nat (r - (k + 1))) rest),
           k + 1 + int (length (take (nat (r - (k + 1))) rest)))"
        unfolding same .
      moreover have "selectFromPage r (x # xs) S k = selectFromPage r xs (insert (id_num x) S) (k + 1)"
        using lt fresh by simp
      ultimately show ?thesis
        unfolding front nk by simp
    qed
  qed
qed

section \<open>One run of the selection callback\<close>

lemma selectAcrossPages_run:
  assumes "accumulating st"
    and "selectFromPage (remainingToSelect st) (data st) (selected st) 0 = (newSet, k)"
  shows "selectAcrossPages st =
     (if k < remainingToSelect st \<and> data st \<noteq> []
      then (if js_lt (currentPage st) (totalPages st)
            then st\<lparr>selected := newSet, remainingToSelect := remainingToSelect st - k,
                    first := first st + rows st\<rparr>
            else st\<lparr>selected := newSet, remainingToSelect := remainingToSelect st - k,
                    isSelecting := False\<rparr>)
      else if remainingToSelect st \<le> k
      then st\<lparr>selected := newSet, remainingToSelect := remainingToSelect st - k,
              isSelecting := False\<rparr>
      else st\<lparr>selected := newSet, remainingToSelect := remainingToSelect st - k\<rparr>)"
  using assms by (simp add: selectAcrossPages_def Let_def)

lemma remaining_after_run:
  assumes "accumulating st"
  shows "remainingToSelect (selectAcrossPages st) =
     remainingToSelect st - snd (selectFromPage (remainingToSelect st) (data st) (selected st) 0)"
    and "selected (selectAcrossPages st) =
     fst (selectFromPage (remainingToSelect st) (data st) (selected st) 0)"
proof -
  obtain newSet k where run: "selectFromPage (remainingToSelect st) (data st) (selected st) 0 = (newSet, k)"
    by (cases "selectFromPage (remainingToSelect st) (data st) (selected st) 0")
  show "remainingToSelect (selectAcrossPages st) =
     remainingToSelect st - snd (selectFromPage (remainingToSelect st) (data st) (selected st) 0)"
    unfolding selectAcrossPages_run [OF assms run] run by simp
  show "selected (selectAcrossPages st) =
     fst (selectFromPage (remainingToSelect st) (data st) (selected st) 0)"
    unfolding selectAcrossPages_run [OF assms run] run by simp
qed

lemma run_on_selected_page:
  assumes "accumulating st" and "pageIds st \<subseteq> selected st"
  shows "selectAcrossPages st =
     (if data st = [] then st
      else if js_lt (currentPage st) (totalPages st) then st\<lparr>first := first st + rows st\<rparr>
      else st\<lparr>isSelecting := False\<rparr>)"
proof -
  have run: "selectFromPage (remainingToSelect st) (data st) (selected st) 0 = (selected st, 0)"
    using assms(2) by (simp add: selectFromPage_nothing_new pageIds_def)
  show ?thesis
    unfolding selectAcrossPages_run [OF assms(1) run]
    using assms(1) by (simp add: accumulating_def)
qed

lemma selectAcrossPages_empty_page:
  "data st = [] \<Longrightarrow> selectAcrossPages st = st"
  by (simp add: selectAcrossPages_def accumulating_def)

lemma page_scanned_in_order:
  assumes "accumulating st" and "distinct (map id_num (data st))"
  shows "selected (selectAcrossPages st) =
       selected st \<union> set (take (nat (remainingToSelect st))
         (filter (\<lambda>i. i \<notin> selected st) (map id_num (data st))))"
    and "remainingToSelect (selectAcrossPages st) =
       remainingToSelect st - int (length (take (nat (remainingToSelect st))
         (filter (\<lambda>i. i \<notin> selected st) (map id_num (data st)))))"
    and "remainingToSelect (selectAcrossPages st) \<le> 0 \<Longrightarrow> accumulator (selectAcrossPages st) = Idle"
proof -
  have pos: "0 \<le> remainingToSelect st" using assms(1) by (simp add: accumulating_def)
  note scan = selectFromPage_in_order [OF assms(2) pos, of "selected st"]
  show "selected (selectAcrossPages st) =
       selected st \<union> set (take (nat (remainingToSelect st))
         (filter (\<lambda>i. i \<notin> selected st) (map id_num (data st))))"
    unfolding remaining_after_run(2) [OF assms(1)] scan by simp
  show "remainingToSelect (selectAcrossPages st) =
       remainingToSelect st - int (length (take (nat (remainingToSelect st))
         (filter (\<lambda>i. i \<notin> selected st) (map id_num (data st)))))"
    unfolding remaining_after_run(1) [OF assms(1)] scan by simp
  show "accumulator (selectAcrossPages st) = Idle" if "remainingToSelect (selectAcrossPages st) \<le> 0"
    using that by (simp add: accumulator_def accumulating_def)
qed

section \<open>The hook: runs that follow one another\<close>

lemma accumulating_fetchData [simp]: "accumulating (fetchData r st) = accumulating st"
  by (cases r) (simp_all add: fetchData_def accumulating_def)

lemma crossPageEffect_rest: "\<not> accumulating st \<Longrightarrow> crossPageEffect st = Some st"
  by (subst crossPageEffect.simps) simp

lemma crossPageEffect_again:
  "accumulating st \<Longrightarrow> crossPageEffect st = crossPageEffect (selectAcrossPages st)"
  by (subst crossPageEffect.simps) simp

lemma rests_only_after_change:
  assumes "crossPageEffect x = Some y"
  shows "\<not> (accumulating x \<and> selectAcrossPages x = x)"
proof (rule crossPageEffect.raw_induct
    [where P = "\<lambda>x y. \<not> (accumulating x \<and> selectAcrossPages x = x)", OF _ assms])
  fix run st sta
  assume IH: "\<And>x y. run x = Some y \<Longrightarrow> \<not> (accumulating x \<and> selectAcrossPages x = x)"
    and body: "(if accumulating st then run (selectAcrossPages st) else Some st) = Some sta"
  show "\<not> (accumulating st \<and> selectAcrossPages st = st)"
  proof
    assume stuck: "accumulating st \<and> selectAcrossPages st = st"
    with body have "run st = Some sta" by simp
    from IH [OF this] stuck show False by simp
  qed
qed

lemma crossPageEffect_never_rests:
  assumes "accumulating st" and "selectAcrossPages st = st"
  shows "crossPageEffect st = None"
proof (cases "crossPageEffect st")
  case None
  then show ?thesis .
next
  case (Some y)
  from rests_only_after_change [OF this] assms show ?thesis by simp
qed

text \<open>With records on display and a page size other than zero, the runs that follow one
  another come to rest: from the second run on each of them only moves the offset by a page,
  until the last page ends the selection.\<close>

lemma run_advances_page:
  assumes "rows st \<noteq> 0"
  shows "currentPage (st\<lparr>first := first st + rows st\<rparr>) = js_plus1 (currentPage st)"
    and "totalPages (st\<lparr>first := first st + rows st\<rparr>) = totalPages st"
  using assms by (simp_all add: currentPage_def toPage_def js_floor_div_def totalPages_def)

lemma spec_toPage_div: "spec_toPage a b = a div b + 1"
  unfolding spec_toPage_def by (simp only: floor_divide_of_int_eq)

lemma rests_on_selected_page:
  assumes "rows st \<noteq> 0" and "data st \<noteq> []" and "pageIds st \<subseteq> selected st"
  shows "\<exists>s. crossPageEffect st = Some s \<and> \<not> accumulating s"
  using assms
proof (induction "nat (spec_totalPages (totalRecords st) (rows st) - spec_toPage (first st) (rows st))"
    arbitrary: st rule: less_induct)
  case less
  show ?case
  proof (cases "accumulating st")
    case False
    then show ?thesis using crossPageEffect_rest by blast
  next
    case True
    note run = run_on_selected_page [OF True less.prems(3)]
    have cp: "currentPage st = Fin (spec_toPage (first st) (rows st))"
      using less.prems(1) by (simp add: currentPage_def toPage_spec)
    have tp: "totalPages st = Fin (spec_totalPages (totalRecords st) (rows st))"
      using less.prems(1) by (simp add: totalPages_def js_ceil_div_spec)
    show ?thesis
    proof (cases "js_lt (currentPage st) (totalPages st)")
      case False
      with run less.prems(2) have "selectAcrossPages st = st\<lparr>isSelecting := False\<rparr>" by simp
      then have "\<not> accumulating (selectAcrossPages st)" by (simp add: accumulating_def)
      with crossPageEffect_again [OF True] crossPageEffect_rest show ?thesis by metis
    next
      case lt: True
      let ?n = "st\<lparr>first := first st + rows st\<rparr>"
      from run less.prems(2) lt have next_run: "selectAcrossPages st = ?n" by simp
      have "spec_toPage (first ?n) (rows ?n) = spec_toPage (first st) (rows st) + 1"
        using less.prems(1) by (simp add: spec_toPage_div)
      moreover have "spec_toPage (first st) (rows st) < spec_totalPages (totalRecords st) (rows st)"
        using lt cp tp by simp
      ultimately have smaller:
        "nat (spec_totalPages (totalRecords ?n) (rows ?n) - spec_toPage (first ?n) (rows ?n))
         < nat (spec_totalPages (totalRecords st) (rows st) - spec_toPage (first st) (rows st))"
        by simp
      have "\<exists>s. crossPageEffect ?n = Some s \<and> \<not> accumulating s"
        using less.hyps [OF smaller] less.prems by (simp add: pageIds_def)
      with crossPageEffect_again [OF True] next_run show ?thesis by simp
    qed
  qed
qed

lemma crossPageEffect_comes_to_rest:
  assumes "rows st \<noteq> 0" and "data st \<noteq> []"
  shows "\<exists>s. crossPageEffect st = Some s \<and> \<not> accumulating s"
proof (cases "accumulating st")
  case False
  then show ?thesis using crossPageEffect_rest by blast
next
  case True
  obtain newSet k where run: "selectFromPage (remainingToSelect st) (data st) (selected st) 0 = (newSet, k)"
    by (cases "selectFromPage (remainingToSelect st) (data st) (selected st) 0")
  show ?thesis
  proof (cases "k < remainingToSelect st \<and> js_lt (currentPage st) (totalPages st)")
    case False
    then have "\<not> accumulating (selectAcrossPages st)"
      unfolding selectAcrossPages_run [OF True run] using assms(2)
      by (auto simp: accumulating_def)
    with crossPageEffect_again [OF True] crossPageEffect_rest show ?thesis by metis
  next
    case more: True
    let ?n = "selectAcrossPages st"
    have n: "?n = st\<lparr>selected := newSet, remainingToSelect := remainingToSelect st - k,
        first := first st + rows st\<rparr>"
      unfolding selectAcrossPages_run [OF True run] using more assms(2) by simp
    have "newSet = selected st \<union> pageIds st"
      using selectFromPage_exhausts [of "remainingToSelect st" "data st" "selected st" 0] run more
      by (simp add: pageIds_def)
    then have "pageIds ?n \<subseteq> selected ?n" "rows ?n \<noteq> 0" "data ?n \<noteq> []"
      unfolding n using assms by (simp_all add: pageIds_def)
    from rests_on_selected_page [OF this(2,3,1)] crossPageEffect_again [OF True]
    show ?thesis by simp
  qed
qed

section \<open>Toggling a whole page\<close>

lemma fold_delete_ids: "fold (\<lambda>item newSet. newSet - {id_num item}) xs S = S - id_num ` set xs"
  by (induction xs arbitrary: S) auto

lemma fold_add_ids: "fold (\<lambda>item newSet. insert (id_num item) newSet) xs S = S \<union> id_num ` set xs"
  by (induction xs arbitrary: S) auto

lemma allSelected_iff: "allSelected st \<longleftrightarrow> data st \<noteq> [] \<and> pageIds st \<subseteq> selected st"
  by (auto simp: allSelected_def pageIds_def list_all_iff)

lemma selected_toggleSelectAll:
  "selected (toggleSelectAll st) =
     (if pageIds st \<subseteq> selected st then selected st - pageIds st else selected st \<union> pageIds st)"
  by (auto simp: toggleSelectAll_def allSelected_iff fold_delete_ids fold_add_ids pageIds_def)

lemma toggleSelectAll_frame: "toggleSelectAll st = st\<lparr>selected := selected (toggleSelectAll st)\<rparr>"
  by (simp add: toggleSelectAll_def)

lemma pageIds_toggleSelectAll: "pageIds (toggleSelectAll st) = pageIds st"
  by (simp add: toggleSelectAll_def pageIds_def)

section \<open>C1: responses that arrive out of order\<close>



section \<open>C2: fifteen rows over two pages\<close>

text \<open>
  Claim C2. While a selection of \<open>remaining\<close> rows is in progress and a page arrives, its
  records are scanned in the order of the page, ids not yet selected are added until
  \<open>remaining\<close> of them were, \<open>remaining\<close> drops by the number added, and at zero the
  accumulator is idle; with pages 1..10 and 11..20 and nothing selected, asking for fifteen
  ends idle with ids 1..15 selected. One run of the callback does the former
  (\<open>page_scanned_in_order\<close>). The component does not do the latter: the run on page 1
  selects 1..10 and moves the offset, and the run that follows it, on the same records,
  finds page 2 of 2 to be the last page and ends the selection before the second page has
  arrived. When it arrives nothing is selected any more: ten ids, not fifteen.
\<close>

theorem select_15_stops_at_10:
  "selectAcrossPages (handleSelectN (shown\<lparr>selectCount := 15\<rparr>))
     = \<lparr>data = map artwork [1..10], totalRecords = 20, first = 10, rows = 10,
        selected = {1..10}, selectCount = 0, remainingToSelect = 5, isSelecting = True\<rparr>
   \<and> selectAcrossPages (selectAcrossPages (handleSelectN (shown\<lparr>selectCount := 15\<rparr>)))
     = \<lparr>data = map artwork [1..10], totalRecords = 20, first = 10, rows = 10,
        selected = {1..10}, selectCount = 0, remainingToSelect = 5, isSelecting = False\<rparr>
   \<and> crossPageEffect (handleSelectN (shown\<lparr>selectCount := 15\<rparr>))
     = Some \<lparr>data = map artwork [1..10], totalRecords = 20, first = 10, rows = 10,
        selected = {1..10}, selectCount = 0, remainingToSelect = 5, isSelecting = False\<rparr>
   \<and> pageArrives (response [11..20] 20)
        \<lparr>data = map artwork [1..10], totalRecords = 20, first = 10, rows = 10,
         selected = {1..10}, selectCount = 0, remainingToSelect = 5, isSelecting = False\<rparr>
     = Some \<lparr>data = map artwork [11..20], totalRecords = 20, first = 10, rows = 10,
        selected = {1..10}, selectCount = 0, remainingToSelect = 5, isSelecting = False\<rparr>
   \<and> card {1..10::int} = 10"
  by code_simp

text \<open>The same run with the requests in view: nothing is outstanding when the selection
  starts; the request for page 2 goes out in the round of effects that follows the first run
  of the callback, and the second run of the callback, in that round, already ends the
  selection; the response to that request then finds nothing to do.\<close>

lemma second_page_requested_too_late:
  "app fifteenWanted = handleSelectN (shown\<lparr>selectCount := 15\<rparr>)
   \<and> pending fifteenWanted = []
   \<and> pending (applyUpdates selectAcrossPages fifteenWanted)
       = [\<lparr>seq = 2, req_page = Fin 2, req_limit = 10\<rparr>]
   \<and> accumulator (app (applyUpdates selectAcrossPages fifteenWanted)) = Accumulating 5
   \<and> pending (applyUpdates selectAcrossPages (applyUpdates selectAcrossPages fifteenWanted))
       = [\<lparr>seq = 2, req_page = Fin 2, req_limit = 10\<rparr>]
   \<and> accumulator (app (applyUpdates selectAcrossPages (applyUpdates selectAcrossPages fifteenWanted)))
       = Idle
   \<and> selected (app (applyUpdates selectAcrossPages
         (responseArrives \<lparr>seq = 2, req_page = Fin 2, req_limit = 10\<rparr> (Decoded (response [11..20] 20))
           (applyUpdates selectAcrossPages (applyUpdates selectAcrossPages fifteenWanted)))))
       = {1..10}"
  by code_simp

text \<open>Asking for a hundred rows of the same twenty ends the same way.\<close>

lemma select_100_of_20_stops_at_10:
  "crossPageEffect (handleSelectN (shown\<lparr>selectCount := 100\<rparr>))
     = Some \<lparr>data = map artwork [1..10], totalRecords = 20, first = 10, rows = 10,
        selected = {1..10}, selectCount = 0, remainingToSelect = 90, isSelecting = False\<rparr>
   \<and> pageArrives (response [11..20] 20)
        \<lparr>data = map artwork [1..10], totalRecords = 20, first = 10, rows = 10,
         selected = {1..10}, selectCount = 0, remainingToSelect = 90, isSelecting = False\<rparr>
     = Some \<lparr>data = map artwork [11..20], totalRecords = 20, first = 10, rows = 10,
        selected = {1..10}, selectCount = 0, remainingToSelect = 90, isSelecting = False\<rparr>"
  by code_simp

section \<open>C3: the last page\<close>

text \<open>
  As stated, C3 fails on a last page without records: an empty collection (its total of
  zero stored as 100), the user on page ten of ten, five rows asked for. The page arrives,
  nothing is selected, five rows remain, the page is the last one, and the selection stays
  in progress; the rounds of the hook never come to rest.
\<close>

theorem empty_last_page_counterexample:
  "accumulator emptyLastPage = Accumulating 5
   \<and> currentPage (fetchData (Decoded (response [] 0)) emptyLastPage) = Fin 10
   \<and> totalPages (fetchData (Decoded (response [] 0)) emptyLastPage) = Fin 10
   \<and> 0 < remainingToSelect (selectAcrossPages (fetchData (Decoded (response [] 0)) emptyLastPage))
   \<and> accumulator (selectAcrossPages (fetchData (Decoded (response [] 0)) emptyLastPage)) \<noteq> Idle
   \<and> pageArrives (response [] 0) emptyLastPage = None"
proof -
  let ?s = "fetchData (Decoded (response [] 0)) emptyLastPage"
  have s: "?s = \<lparr>data = [], totalRecords = 100, first = 90, rows = 10, selected = {},
      selectCount = 0, remainingToSelect = 5, isSelecting = True\<rparr>"
    by (simp add: emptyLastPage_def handleSelectN_def handlePageChange_def pageInRange_def
        toPage_def js_floor_div_def totalPages_def js_ceil_div_def fetchData_def response_def
        dataOrEmpty_def totalOrDefault_def reportedTotal_def initial_def)
  have acc: "accumulating ?s" unfolding s by (simp add: accumulating_def)
  have same: "selectAcrossPages ?s = ?s"
    by (rule selectAcrossPages_empty_page) (simp add: s)
  have "pageArrives (response [] 0) emptyLastPage = None"
    unfolding pageArrives_def using acc same by (rule crossPageEffect_never_rests)
  moreover have "accumulator emptyLastPage = Accumulating 5"
    using acc by (simp add: accumulator_def emptyLastPage_def handleSelectN_def)
  moreover have "currentPage ?s = Fin 10" "totalPages ?s = Fin 10"
    unfolding s by (simp_all add: currentPage_def toPage_def js_floor_div_def totalPages_def js_ceil_div_def)
  moreover have "0 < remainingToSelect (selectAcrossPages ?s)"
    "accumulator (selectAcrossPages ?s) \<noteq> Idle"
    unfolding same using acc by (simp_all add: accumulator_def accumulating_def)
  ultimately show ?thesis by simp
qed

text \<open>
  Claim C3, amended. If a page with at least one record arrives while a selection is in
  progress, rows remain to be selected after it was processed, and the page is the last
  one (\<open>currentPage = totalPages\<close>), then the accumulator becomes idle and the component
  comes to rest, with no error: every id of the page is selected, the request is left
  partially satisfied, offset and page size are unchanged. If the page has no record,
  nothing changes and the selection stays in progress.
\<close>

theorem last_page_ends_selection:
  assumes "accumulating st" and "s = fetchData (Decoded json) st"
    and "currentPage s = totalPages s"
  shows "(dataOrEmpty json \<noteq> [] \<and> 0 < remainingToSelect (selectAcrossPages s) \<longrightarrow>
            accumulator (selectAcrossPages s) = Idle
          \<and> pageArrives json st = Some (selectAcrossPages s)
          \<and> selected (selectAcrossPages s) = selected st \<union> pageIds s
          \<and> data (selectAcrossPages s) = dataOrEmpty json
          \<and> first (selectAcrossPages s) = first st
          \<and> rows (selectAcrossPages s) = rows st)
     \<and> (dataOrEmpty json = [] \<longrightarrow>
            selectAcrossPages s = s
          \<and> accumulator s = Accumulating (remainingToSelect st)
          \<and> pageArrives json st = None)"
proof -
  have acc: "accumulating s" using assms(1,2) by simp
  have fields: "data s = dataOrEmpty json" "selected s = selected st" "first s = first st"
    "rows s = rows st" "remainingToSelect s = remainingToSelect st"
    by (simp_all add: assms(2) fetchData_def)
  have arrives: "pageArrives json st = crossPageEffect s"
    by (simp add: pageArrives_def assms(2))
  obtain newSet k where run: "selectFromPage (remainingToSelect s) (data s) (selected s) 0 = (newSet, k)"
    by (cases "selectFromPage (remainingToSelect s) (data s) (selected s) 0")
  have part: ?thesis if full: "dataOrEmpty json \<noteq> []" and more: "0 < remainingToSelect (selectAcrossPages s)"
  proof -
    have k: "k < remainingToSelect s"
      using more remaining_after_run(1) [OF acc] run by simp
    have after: "selectAcrossPages s =
        s\<lparr>selected := newSet, remainingToSelect := remainingToSelect s - k, isSelecting := False\<rparr>"
      unfolding selectAcrossPages_run [OF acc run] using k full fields(1) assms(3) by simp
    have idle: "\<not> accumulating (selectAcrossPages s)"
      unfolding after by (simp add: accumulating_def)
    have "newSet = selected s \<union> pageIds s"
      using selectFromPage_exhausts [of "remainingToSelect s" "data s" "selected s" 0] run k
      by (simp add: pageIds_def)
    moreover have "crossPageEffect s = Some (selectAcrossPages s)"
      using crossPageEffect_again [OF acc] crossPageEffect_rest [OF idle] by simp
    ultimately show ?thesis
      using idle full arrives fields unfolding after by (simp add: accumulator_def)
  qed
  have none: ?thesis if empty: "dataOrEmpty json = []"
  proof -
    have same: "selectAcrossPages s = s"
      by (rule selectAcrossPages_empty_page) (simp add: fields empty)
    from crossPageEffect_never_rests [OF acc same] same acc empty arrives fields
    show ?thesis by (simp add: accumulator_def)
  qed
  from part none show ?thesis by blast
qed

theorem last_page_ends_selection_witness:
  "accumulator (selectAcrossPages (fetchData (Decoded (response [11..20] 20))
       (initial\<lparr>first := 10, selected := {1..10}, remainingToSelect := 90, isSelecting := True\<rparr>))) = Idle
   \<and> remainingToSelect (selectAcrossPages (fetchData (Decoded (response [11..20] 20))
       (initial\<lparr>first := 10, selected := {1..10}, remainingToSelect := 90, isSelecting := True\<rparr>))) = 80
   \<and> selected (selectAcrossPages (fetchData (Decoded (response [11..20] 20))
       (initial\<lparr>first := 10, selected := {1..10}, remainingToSelect := 90, isSelecting := True\<rparr>))) = {1..20}
   \<and> pageArrives (response [] 0)
       (initial\<lparr>first := 90, remainingToSelect := 5, isSelecting := True\<rparr>) = None"
proof -
  let ?st = "initial\<lparr>first := 10, selected := {1..10}, remainingToSelect := 90, isSelecting := True\<rparr>"
  let ?s = "fetchData (Decoded (response [11..20] 20)) ?st"
  let ?e = "initial\<lparr>first := 90, remainingToSelect := 5, isSelecting := True\<rparr>"
  have a: "accumulating ?st" by code_simp
  have l: "currentPage ?s = totalPages ?s" by code_simp
  have f: "dataOrEmpty (response [11..20] 20) \<noteq> []" by code_simp
  have r: "remainingToSelect (selectAcrossPages ?s) = 80" by code_simp
  have u: "selected ?st \<union> pageIds ?s = {1..20}" by code_simp
  have a': "accumulating ?e" by code_simp
  have l': "currentPage (fetchData (Decoded (response [] 0)) ?e)
      = totalPages (fetchData (Decoded (response [] 0)) ?e)" by code_simp
  have f': "dataOrEmpty (response [] 0) = []" by code_simp
  from last_page_ends_selection [OF a refl l] f r u
    last_page_ends_selection [OF a' refl l'] f'
  show ?thesis by simp
qed

section \<open>C4: what a page does to the number of remaining rows\<close>




section \<open>C5: starting a selection\<close>

text \<open>
  Claim C5. Starting with a count \<open>n \<le> 0\<close> changes nothing. Starting with \<open>n > 0\<close> puts
  the accumulator in \<open>Accumulating n\<close> whatever it was before: a selection already in
  progress has its remaining count replaced by \<open>n\<close>, not added to.
\<close>

theorem handleSelectN_starts_or_ignores:
  assumes "selectCount st = n"
  shows "(n \<le> 0 \<longrightarrow> handleSelectN st = st)
     \<and> (0 < n \<longrightarrow> accumulator (handleSelectN st) = Accumulating n
                 \<and> isSelecting (handleSelectN st)
                 \<and> remainingToSelect (handleSelectN st) = n
                 \<and> handleSelectN st = st\<lparr>remainingToSelect := n, isSelecting := True, selectCount := 0\<rparr>)"
  using assms by (simp add: handleSelectN_def accumulator_def accumulating_def)

theorem handleSelectN_starts_or_ignores_witness:
  "handleSelectN (initial\<lparr>selectCount := - 3, remainingToSelect := 4, isSelecting := True\<rparr>)
     = initial\<lparr>selectCount := - 3, remainingToSelect := 4, isSelecting := True\<rparr>
   \<and> accumulator (handleSelectN (initial\<lparr>selectCount := 7, remainingToSelect := 4, isSelecting := True\<rparr>))
     = Accumulating 7"
  using handleSelectN_starts_or_ignores [of "initial\<lparr>selectCount := - 3, remainingToSelect := 4, isSelecting := True\<rparr>" "- 3"]
    handleSelectN_starts_or_ignores [of "initial\<lparr>selectCount := 7, remainingToSelect := 4, isSelecting := True\<rparr>" 7]
  by (simp add: initial_def accumulator_def accumulating_def)

section \<open>C6: page changes\<close>



section \<open>C7: toggling all rows of the page\<close>

text \<open>
  As stated, C7 fails: on a page of ids 1 and 2 with only 1 selected, the first toggle
  selects both and the second removes both, so the selection \<open>{1}\<close> is not restored.
\<close>

theorem toggleSelectAll_twice_counterexample:
  "selected (toggleSelectAll (toggleSelectAll (initial\<lparr>data := [artwork 1, artwork 2], selected := {1}\<rparr>)))
     \<noteq> selected (initial\<lparr>data := [artwork 1, artwork 2], selected := {1}\<rparr>)"
  by (auto simp: toggleSelectAll_def allSelected_def initial_def artwork_def)

text \<open>
  Claim C7, amended. One toggle of the page removes all ids of the page when all of them
  were selected, and adds all of them otherwise; it changes the selection only, and the page
  is never mixed afterwards. Two toggles in a row on the same page restore the state when
  the page was not mixed before (all of its ids selected, or none); on a mixed page they
  end with every id of the page removed.
\<close>

theorem toggleSelectAll_all_or_nothing:
  "selected (toggleSelectAll st) =
     (if pageIds st \<subseteq> selected st then selected st - pageIds st else selected st \<union> pageIds st)
   \<and> toggleSelectAll st = st\<lparr>selected := selected (toggleSelectAll st)\<rparr>
   \<and> (pageIds st \<subseteq> selected (toggleSelectAll st) \<or> pageIds st \<inter> selected (toggleSelectAll st) = {})
   \<and> (if pageIds st \<subseteq> selected st \<or> pageIds st \<inter> selected st = {}
       then toggleSelectAll (toggleSelectAll st) = st
       else selected (toggleSelectAll (toggleSelectAll st)) = selected st - pageIds st)"
proof -
  let ?P = "pageIds st" and ?S = "selected st" and ?t = "toggleSelectAll st"
  have one: "selected ?t = (if ?P \<subseteq> ?S then ?S - ?P else ?S \<union> ?P)"
    by (rule selected_toggleSelectAll)
  have two: "selected (toggleSelectAll ?t) =
      (if ?P \<subseteq> selected ?t then selected ?t - ?P else selected ?t \<union> ?P)"
    using selected_toggleSelectAll [of ?t] by (simp add: pageIds_toggleSelectAll)
  have frame2: "toggleSelectAll ?t = st\<lparr>selected := selected (toggleSelectAll ?t)\<rparr>"
    using toggleSelectAll_frame [of ?t] toggleSelectAll_frame [of st]
    by (metis App.surjective App.update_convs(5))
  have mixed: "?P \<subseteq> selected ?t \<or> ?P \<inter> selected ?t = {}"
    unfolding one by auto
  have restored: "toggleSelectAll (toggleSelectAll st) = st" if "?P \<subseteq> ?S \<or> ?P \<inter> ?S = {}"
  proof -
    have "selected (toggleSelectAll ?t) = ?S"
      unfolding two one using that by auto
    then show ?thesis using frame2 by simp
  qed
  have gone: "selected (toggleSelectAll (toggleSelectAll st)) = ?S - ?P"
    if "\<not> (?P \<subseteq> ?S \<or> ?P \<inter> ?S = {})"
    unfolding two one using that by auto
  have twice: "if ?P \<subseteq> ?S \<or> ?P \<inter> ?S = {}
       then toggleSelectAll (toggleSelectAll st) = st
       else selected (toggleSelectAll (toggleSelectAll st)) = ?S - ?P"
    using restored gone by (cases "?P \<subseteq> ?S \<or> ?P \<inter> ?S = {}") simp_all
  from one toggleSelectAll_frame [of st] mixed twice show ?thesis
    by (intro conjI)
qed

theorem toggleSelectAll_all_or_nothing_witness:
  "toggleSelectAll (toggleSelectAll (initial\<lparr>data := [artwork 1, artwork 2], selected := {5}\<rparr>))
     = initial\<lparr>data := [artwork 1, artwork 2], selected := {5}\<rparr>
   \<and> selected (toggleSelectAll (initial\<lparr>data := [artwork 1, artwork 2], selected := {5}\<rparr>)) = {5, 1, 2}
   \<and> selected (toggleSelectAll (toggleSelectAll (initial\<lparr>data := [artwork 1, artwork 2], selected := {1}\<rparr>))) = {}"
  using toggleSelectAll_all_or_nothing [of "initial\<lparr>data := [artwork 1, artwork 2], selected := {5}\<rparr>"]
    toggleSelectAll_all_or_nothing [of "initial\<lparr>data := [artwork 1, artwork 2], selected := {1}\<rparr>"]
  by (auto simp: pageIds_def initial_def artwork_def)

section \<open>C8: a fetch that fails\<close>

text \<open>
  Claim C8. When a fetch fails (transport or decode error), nothing changes: records, total,
  offset, page size, selection and the accumulator (remaining count and flag) are what they
  were, so a selection in progress is not aborted.
\<close>

theorem fetch_failure_changes_nothing:
  "fetchData Threw st = st
   \<and> data (fetchData Threw st) = data st
   \<and> totalRecords (fetchData Threw st) = totalRecords st
   \<and> first (fetchData Threw st) = first st
   \<and> rows (fetchData Threw st) = rows st
   \<and> selected (fetchData Threw st) = selected st
   \<and> remainingToSelect (fetchData Threw st) = remainingToSelect st
   \<and> isSelecting (fetchData Threw st) = isSelecting st
   \<and> accumulator (fetchData Threw st) = accumulator st"
  by (simp add: fetchData_def)

section \<open>C9: a response without a total\<close>

text \<open>
  Claim C9. When a decoded response has no \<open>pagination.total\<close> (or no \<open>pagination\<close> at
  all), the total stored is exactly 100, and the number of pages computed from then on is
  the ceiling of 100 over the page size.
\<close>

theorem missing_total_defaults_to_100:
  assumes "reportedTotal json = None"
  shows "totalRecords (fetchData (Decoded json) st) = 100
     \<and> totalPages (fetchData (Decoded json) st) = js_ceil_div 100 (rows st)
     \<and> (rows st \<noteq> 0 \<longrightarrow>
          totalPages (fetchData (Decoded json) st) = Fin \<lceil>100 / real_of_int (rows st)\<rceil>)"
  using assms
  by (simp add: fetchData_def totalOrDefault_def totalPages_def js_ceil_div_spec spec_totalPages_def)

theorem missing_total_defaults_to_100_witness:
  "totalRecords (fetchData (Decoded \<lparr>json_data = Some [artwork 7], json_pagination = None\<rparr>) initial) = 100
   \<and> totalPages (fetchData (Decoded \<lparr>json_data = Some [artwork 7], json_pagination = None\<rparr>) initial) = Fin 10
   \<and> totalRecords (fetchData (Decoded \<lparr>json_data = None, json_pagination =
         Some \<lparr>total = None, current_page = Some 1, total_pages = Some 3, limit = Some 10\<rparr>\<rparr>)
         (initial\<lparr>totalRecords := 30\<rparr>)) = 100"
  using missing_total_defaults_to_100 [of "\<lparr>json_data = Some [artwork 7], json_pagination = None\<rparr>" initial]
    missing_total_defaults_to_100 [of "\<lparr>json_data = None, json_pagination =
         Some \<lparr>total = None, current_page = Some 1, total_pages = Some 3, limit = Some 10\<rparr>\<rparr>"
         "initial\<lparr>totalRecords := 30\<rparr>"]
  by (simp add: reportedTotal_def initial_def js_ceil_div_def)

section \<open>C10: a response with a total of zero\<close>

text \<open>
  Claim C10. When a decoded response reports a total of 0, the total stored is 100, not 0:
  the fallback takes every falsy total, so an empty collection is shown with the ceiling of
  100 over the page size as its number of pages.
\<close>

theorem zero_total_becomes_100:
  assumes "reportedTotal json = Some 0"
  shows "totalRecords (fetchData (Decoded json) st) = 100
     \<and> totalPages (fetchData (Decoded json) st) = js_ceil_div 100 (rows st)
     \<and> (rows st \<noteq> 0 \<longrightarrow>
          totalPages (fetchData (Decoded json) st) = Fin \<lceil>100 / real_of_int (rows st)\<rceil>)"
  using assms
  by (simp add: fetchData_def totalOrDefault_def totalPages_def js_ceil_div_spec spec_totalPages_def)

theorem zero_total_becomes_100_witness:
  "totalRecords (fetchData (Decoded (response [] 0)) initial) = 100
   \<and> data (fetchData (Decoded (response [] 0)) initial) = []
   \<and> totalPages (fetchData (Decoded (response [] 0)) initial) = Fin 10"
  using zero_total_becomes_100 [of "response [] 0" initial]
  by (simp add: reportedTotal_def initial_def response_def fetchData_def dataOrEmpty_def
      totalOrDefault_def totalPages_def js_ceil_div_def)


end
